theory Spec2Isabelle
  imports Main "HOL-Library.Char_ord" "HOL-Library.List_Lexorder" "HOL-Library.Sublist"
    "HOL-Library.Multiset"
begin

section \<open>Python values used by the tools\<close>

text \<open>
  A Python \<open>str\<close> is modelled as a \<open>string\<close> whose characters are the code points
  below 256; Python's \<open>int\<close> is unbounded and is modelled as \<open>int\<close>. The exceptions
  the three tools raise are the constructors of \<open>error\<close>; a constructor keeps the data
  the message is formatted from.
\<close>

datatype error =
    InvalidLiteral string      \<comment> \<open>\<open>ValueError\<close> of \<open>int(x)\<close>, with the rejected text\<close>
  | RangeStartGtEnd string     \<comment> \<open>\<open>ValueError("Range start > end in '{part}'")\<close>\<close>
  | InvalidLevel string        \<comment> \<open>\<open>ValueError("Invalid compression level ...")\<close>\<close>
  | IndexError int             \<comment> \<open>\<open>IndexError("Page {i + 1} is out of bounds")\<close>, with \<open>i + 1\<close>\<close>
  | FileExistsError            \<comment> \<open>raised by \<open>write_pdf\<close> and \<open>compress_pdf\<close>\<close>
  | FileNotFoundError          \<comment> \<open>a missing input, or an output that was not created\<close>
  | OSError                    \<comment> \<open>a file where a directory is needed, or the reverse\<close>
  | PdfReadError               \<comment> \<open>the file is not a PDF document\<close>
  | UnidentifiedImageError     \<comment> \<open>the file is not an image\<close>
  | SystemExit                 \<comment> \<open>\<open>SystemExit("No supported files found in ...")\<close>\<close>
  | CalledProcessError int     \<comment> \<open>non-zero exit status of the subprocess\<close>

subsection \<open>Strings\<close>

definition is_space :: "char \<Rightarrow> bool" where
  \<comment> \<open>\<open>str.isspace\<close>, the characters \<open>str.strip()\<close> removes\<close>
  "is_space c = (let n = (of_char c :: nat)
                 in (9 \<le> n \<and> n \<le> 13) \<or> (28 \<le> n \<and> n \<le> 32) \<or> n = 133 \<or> n = 160)"

definition is_int_space :: "char \<Rightarrow> bool" where
  \<comment> \<open>the whitespace \<open>int()\<close> skips around a literal: not the separators 28 to 31\<close>
  "is_int_space c = (let n = (of_char c :: nat)
                     in (9 \<le> n \<and> n \<le> 13) \<or> n = 32 \<or> n = 133 \<or> n = 160)"

definition is_digit :: "char \<Rightarrow> bool" where
  "is_digit c = (let n = (of_char c :: nat) in 48 \<le> n \<and> n \<le> 57)"

definition digit_val :: "char \<Rightarrow> int" where
  "digit_val c = int (of_char c) - 48"

definition strip :: "string \<Rightarrow> string" where
  \<comment> \<open>\<open>s.strip()\<close>\<close>
  "strip s = rev (dropWhile is_space (rev (dropWhile is_space s)))"

fun split_on :: "char \<Rightarrow> string \<Rightarrow> string list" where
  \<comment> \<open>\<open>s.split(sep)\<close> for a separator of one character\<close>
  "split_on sep [] = [[]]"
| "split_on sep (c # cs) =
     (if c = sep then [] # split_on sep cs
      else (case split_on sep cs of [] \<Rightarrow> [[c]] | p # ps \<Rightarrow> (c # p) # ps))"

definition split_once :: "char \<Rightarrow> string \<Rightarrow> string list" where
  \<comment> \<open>\<open>s.split(sep, 1)\<close>: at most one split, at the first separator\<close>
  "split_once sep s =
     (if sep \<in> set s then [takeWhile (\<lambda>c. c \<noteq> sep) s, tl (dropWhile (\<lambda>c. c \<noteq> sep) s)]
      else [s])"

definition lower_char :: "char \<Rightarrow> char" where
  "lower_char c = (let n = (of_char c :: nat)
                   in if (65 \<le> n \<and> n \<le> 90) \<or> (192 \<le> n \<and> n \<le> 222 \<and> n \<noteq> 215)
                      then char_of (n + 32) else c)"

definition lower :: "string \<Rightarrow> string" where
  \<comment> \<open>\<open>s.lower()\<close>\<close>
  "lower s = map lower_char s"

subsection \<open>Integers and their decimal text\<close>

definition digits_value :: "string \<Rightarrow> int" where
  "digits_value ds = foldl (\<lambda>a c. 10 * a + digit_val c) 0 ds"

fun single_underscores :: "string \<Rightarrow> bool" where
  "single_underscores (a # b # cs) =
     ((a \<noteq> CHR ''_'' \<or> b \<noteq> CHR ''_'') \<and> single_underscores (b # cs))"
| "single_underscores cs = True"

definition int_body_ok :: "string \<Rightarrow> bool" where
  \<comment> \<open>digits with single underscores between them: at least one digit, no underscore
      first or last, no two underscores in a row\<close>
  "int_body_ok b = (b \<noteq> [] \<and> hd b \<noteq> CHR ''_'' \<and> last b \<noteq> CHR ''_'' \<and> single_underscores b)"

definition py_int :: "string \<Rightarrow> error + int" where
  \<comment> \<open>\<open>int(x)\<close> for a string, in base 10: whitespace, an optional sign, the digits,
      whitespace; anything else is a \<open>ValueError\<close>. The interpreter's limit on the
      number of digits of a literal is not modelled.\<close>
  "py_int x =
     (let s1 = dropWhile is_int_space x;
          neg = (s1 \<noteq> [] \<and> hd s1 = CHR ''-'');
          s2 = (if s1 \<noteq> [] \<and> (hd s1 = CHR ''+'' \<or> hd s1 = CHR ''-'') then tl s1 else s1);
          body = takeWhile (\<lambda>c. is_digit c \<or> c = CHR ''_'') s2;
          rest = dropWhile (\<lambda>c. is_digit c \<or> c = CHR ''_'') s2
      in if int_body_ok body \<and> list_all is_int_space rest
         then Inr ((if neg then - 1 else 1) * digits_value (filter is_digit body))
         else Inl (InvalidLiteral x))"

definition digit_char :: "nat \<Rightarrow> char" where
  "digit_char d = char_of (48 + d)"

fun str_nat :: "nat \<Rightarrow> string" where
  "str_nat n = (if n < 10 then [digit_char n] else str_nat (n div 10) @ [digit_char (n mod 10)])"

definition str_int :: "int \<Rightarrow> string" where
  \<comment> \<open>\<open>str(i)\<close>, also what \<open>f"{i}"\<close> formats\<close>
  "str_int i = (if i < 0 then CHR ''-'' # str_nat (nat (- i)) else str_nat (nat i))"

subsection \<open>Paths\<close>

text \<open>
  A \<open>pathlib.Path\<close> is the list of its components, read from a fixed directory that
  exists (the empty path); \<open>dir / name\<close> appends a component.
\<close>

type_synonym path = "string list"

definition path_name :: "path \<Rightarrow> string" where
  \<comment> \<open>\<open>p.name\<close>\<close>
  "path_name p = (if p = [] then [] else last p)"

definition rfind :: "char \<Rightarrow> string \<Rightarrow> nat option" where
  \<comment> \<open>\<open>s.rfind(c)\<close>, with \<open>None\<close> for Python's \<open>-1\<close>\<close>
  "rfind c s = (if c \<in> set s
                then Some (length s - 1 - length (takeWhile (\<lambda>x. x \<noteq> c) (rev s)))
                else None)"

definition suffix_of :: "string \<Rightarrow> string" where
  \<comment> \<open>\<open>p.suffix\<close>, from the name: the text from the last dot on, when that dot is
      neither the first nor the last character\<close>
  "suffix_of name =
     (case rfind CHR ''.'' name of
        None \<Rightarrow> []
      | Some i \<Rightarrow> if 0 < i \<and> i < length name - 1 then drop i name else [])"

definition stem_of :: "string \<Rightarrow> string" where
  \<comment> \<open>\<open>p.stem\<close>, from the name: the name without its suffix\<close>
  "stem_of name =
     (case rfind CHR ''.'' name of
        None \<Rightarrow> name
      | Some i \<Rightarrow> if 0 < i \<and> i < length name - 1 then take i name else name)"

section \<open>The file system\<close>

text \<open>
  A file holds a PDF document (the list of its pages), an image, or other data; the
  pages and the images themselves are opaque. The file system maps a path to its node.
  Only the failures that the state of the file system decides are modelled (a file where
  a directory is needed, a missing parent): permissions and faults of the device are not.
\<close>

datatype ('p, 'i) content = PdfDoc "'p list" | ImageData 'i | OtherData

datatype 'c node = File 'c | Dir

type_synonym 'c fs = "path \<Rightarrow> 'c node option"

definition path_exists :: "'c fs \<Rightarrow> path \<Rightarrow> bool" where
  \<comment> \<open>\<open>p.exists()\<close>\<close>
  "path_exists fs p = (p = [] \<or> fs p \<noteq> None)"

definition is_dir :: "'c fs \<Rightarrow> path \<Rightarrow> bool" where
  \<comment> \<open>\<open>p.is_dir()\<close>\<close>
  "is_dir fs p = (p = [] \<or> fs p = Some Dir)"

definition is_file :: "'c fs \<Rightarrow> path \<Rightarrow> bool" where
  \<comment> \<open>\<open>p.is_file()\<close>\<close>
  "is_file fs p = (p \<noteq> [] \<and> (case fs p of Some (File c) \<Rightarrow> True | _ \<Rightarrow> False))"

fun mkdir_parents :: "'c fs \<Rightarrow> path \<Rightarrow> error + 'c fs" where
  \<comment> \<open>\<open>p.mkdir(parents=True, exist_ok=True)\<close>: nothing to do for a directory, an error
      for a file, and otherwise the parent first, then the directory itself\<close>
  "mkdir_parents fs p =
     (if p = [] then Inr fs
      else (case fs p of
              Some Dir \<Rightarrow> Inr fs
            | Some (File c) \<Rightarrow> Inl OSError
            | None \<Rightarrow>
                (case mkdir_parents fs (butlast p) of
                   Inl e \<Rightarrow> Inl e
                 | Inr fs' \<Rightarrow> Inr (fs'(p \<mapsto> Dir)))))"

definition open_wb :: "'c fs \<Rightarrow> path \<Rightarrow> 'c \<Rightarrow> error + 'c fs" where
  \<comment> \<open>\<open>open(p, "wb")\<close> followed by the write of the whole content\<close>
  "open_wb fs p c =
     (if is_dir fs p then Inl OSError
      else if is_dir fs (butlast p) then Inr (fs(p \<mapsto> File c))
      else if path_exists fs (butlast p) then Inl OSError
      else Inl FileNotFoundError)"

definition PdfReader :: "('p, 'i) content fs \<Rightarrow> path \<Rightarrow> error + 'p list" where
  \<comment> \<open>\<open>PdfReader(str(p))\<close>: the file is read whole when the reader is made, so the
      reader is the list of the pages the file had then\<close>
  "PdfReader fs p =
     (if p = [] then Inl OSError
      else (case fs p of
              None \<Rightarrow> Inl FileNotFoundError
            | Some Dir \<Rightarrow> Inl OSError
            | Some (File (PdfDoc pages)) \<Rightarrow> Inr pages
            | Some (File c) \<Rightarrow> Inl PdfReadError))"

section \<open>split\_pdf.py\<close>

subsection \<open>parse\_ranges\<close>

definition parse_part :: "string \<Rightarrow> error + (int \<times> int)" where
  \<comment> \<open>the body of the loop of \<open>parse_ranges\<close>, for one comma-separated part\<close>
  "parse_part part0 =
     (let part = strip part0 in
      if CHR ''-'' \<in> set part then
        (case split_once CHR ''-'' part of
           [x1, x2] \<Rightarrow>
             (case py_int x1 of
                Inl e \<Rightarrow> Inl e
              | Inr a \<Rightarrow>
                  (case py_int x2 of
                     Inl e \<Rightarrow> Inl e
                   | Inr b \<Rightarrow> if a > b then Inl (RangeStartGtEnd part) else Inr (a, b)))
         | _ \<Rightarrow> Inl (InvalidLiteral part))
      else
        (case py_int part of
           Inl e \<Rightarrow> Inl e
         | Inr p \<Rightarrow> Inr (p, p)))"

fun parse_loop :: "(int \<times> int) list \<Rightarrow> string list \<Rightarrow> error + (int \<times> int) list" where
  "parse_loop result [] = Inr result"
| "parse_loop result (part # parts) =
     (case parse_part part of
        Inl e \<Rightarrow> Inl e
      | Inr r \<Rightarrow> parse_loop (result @ [r]) parts)"

definition parse_ranges :: "string \<Rightarrow> error + (int \<times> int) list" where
  "parse_ranges ranges_str = parse_loop [] (split_on CHR '','' ranges_str)"

subsection \<open>add\_pages, write\_pdf, split\_pdf\<close>

text \<open>
  A \<open>PdfWriter\<close> is the list of the pages added to it so far. A function that changes
  the file system returns the new file system and the exception it raised, if any, so
  that what was written before a failure stays visible.
\<close>

fun add_pages_loop :: "'p list \<Rightarrow> 'p list \<Rightarrow> int list \<Rightarrow> error + 'p list" where
  "add_pages_loop writer reader [] = Inr writer"
| "add_pages_loop writer reader (i # rest) =
     (if i \<ge> int (length reader) \<or> i < 0 then Inl (IndexError (i + 1))
      else add_pages_loop (writer @ [reader ! nat i]) reader rest)"

definition add_pages :: "'p list \<Rightarrow> 'p list \<Rightarrow> int \<Rightarrow> int \<Rightarrow> error + 'p list" where
  \<comment> \<open>\<open>for i in range(start - 1, end)\<close>\<close>
  "add_pages writer reader start stop = add_pages_loop writer reader [start - 1 .. stop - 1]"

definition write_pdf ::
  "'p list \<Rightarrow> path \<Rightarrow> bool \<Rightarrow> ('p, 'i) content fs \<Rightarrow> ('p, 'i) content fs \<times> error option" where
  "write_pdf writer p overwrite fs =
     (if path_exists fs p \<and> \<not> overwrite then (fs, Some FileExistsError)
      else (case mkdir_parents fs (butlast p) of
              Inl e \<Rightarrow> (fs, Some e)
            | Inr fs1 \<Rightarrow>
                (case open_wb fs1 p (PdfDoc writer) of
                   Inl e \<Rightarrow> (fs1, Some e)
                 | Inr fs2 \<Rightarrow> (fs2, None))))"

definition page_path :: "path \<Rightarrow> string \<Rightarrow> nat \<Rightarrow> path" where
  \<comment> \<open>\<open>dest_dir / f"{src.stem}_p{page_no}.pdf"\<close>\<close>
  "page_path dest_dir stem page_no = dest_dir @ [stem @ ''_p'' @ str_int (int page_no) @ ''.pdf'']"

definition range_label :: "int \<Rightarrow> int \<Rightarrow> string" where
  \<comment> \<open>\<open>f"{start}" if start == end else f"{start}-{end}"\<close>\<close>
  "range_label start stop =
     (if start = stop then str_int start else str_int start @ ''-'' @ str_int stop)"

definition range_path :: "path \<Rightarrow> string \<Rightarrow> int \<Rightarrow> int \<Rightarrow> path" where
  \<comment> \<open>\<open>dest_dir / f"{src.stem}_{label}.pdf"\<close>\<close>
  "range_path dest_dir stem start stop = dest_dir @ [stem @ ''_'' @ range_label start stop @ ''.pdf'']"

fun split_pages ::
  "string \<Rightarrow> path \<Rightarrow> bool \<Rightarrow> (nat \<times> 'p) list \<Rightarrow> ('p, 'i) content fs
   \<Rightarrow> ('p, 'i) content fs \<times> error option" where
  \<comment> \<open>the loop over \<open>enumerate(reader.pages, start=1)\<close>\<close>
  "split_pages stem dest_dir overwrite [] fs = (fs, None)"
| "split_pages stem dest_dir overwrite ((page_no, page) # rest) fs =
     (case write_pdf [page] (page_path dest_dir stem page_no) overwrite fs of
        (fs', Some e) \<Rightarrow> (fs', Some e)
      | (fs', None) \<Rightarrow> split_pages stem dest_dir overwrite rest fs')"

fun split_ranges ::
  "'p list \<Rightarrow> string \<Rightarrow> path \<Rightarrow> bool \<Rightarrow> (int \<times> int) list \<Rightarrow> ('p, 'i) content fs
   \<Rightarrow> ('p, 'i) content fs \<times> error option" where
  \<comment> \<open>the loop over \<open>ranges\<close>\<close>
  "split_ranges reader stem dest_dir overwrite [] fs = (fs, None)"
| "split_ranges reader stem dest_dir overwrite ((start, stop) # rest) fs =
     (case add_pages [] reader start stop of
        Inl e \<Rightarrow> (fs, Some e)
      | Inr writer \<Rightarrow>
          (case write_pdf writer (range_path dest_dir stem start stop) overwrite fs of
             (fs', Some e) \<Rightarrow> (fs', Some e)
           | (fs', None) \<Rightarrow> split_ranges reader stem dest_dir overwrite rest fs'))"

definition split_pdf ::
  "path \<Rightarrow> path \<Rightarrow> (int \<times> int) list option \<Rightarrow> bool \<Rightarrow> ('p, 'i) content fs
   \<Rightarrow> ('p, 'i) content fs \<times> error option" where
  "split_pdf src dest_dir ranges overwrite fs =
     (case PdfReader fs src of
        Inl e \<Rightarrow> (fs, Some e)
      | Inr reader \<Rightarrow>
          (case mkdir_parents fs dest_dir of
             Inl e \<Rightarrow> (fs, Some e)
           | Inr fs1 \<Rightarrow>
               (case ranges of
                  None \<Rightarrow>
                    split_pages (stem_of (path_name src)) dest_dir overwrite
                      (enumerate 1 reader) fs1
                | Some rs \<Rightarrow>
                    split_ranges reader (stem_of (path_name src)) dest_dir overwrite rs fs1)))"

subsection \<open>The range grammar of the specification\<close>













subsection \<open>When directories can be made\<close>

fun nearest_is_dir :: "'c fs \<Rightarrow> path \<Rightarrow> bool" where
  \<comment> \<open>the nearest ancestor of the path that exists, the path itself included, is a
      directory: what \<open>mkdir_parents\<close> needs to succeed\<close>
  "nearest_is_dir fs p =
     (if p = [] then True
      else (case fs p of
              Some Dir \<Rightarrow> True
            | Some (File c) \<Rightarrow> False
            | None \<Rightarrow> nearest_is_dir fs (butlast p)))"

subsection \<open>A file system for the examples\<close>


subsection \<open>The first page out of bounds\<close>

definition offending_page :: "int \<Rightarrow> nat \<Rightarrow> int" where
  \<comment> \<open>the 1-based number of the first page of a range from \<open>start\<close> that a document
      of \<open>n\<close> pages does not have\<close>
  "offending_page start n = (if start \<le> 0 then start else max start (int n + 1))"

subsection \<open>Documents for the examples\<close>

definition ten_page_fs :: "(nat, nat) content fs" where
  \<comment> \<open>the document \<open>doc.pdf\<close> of ten pages; page \<open>k\<close> is the number \<open>10 + k\<close>\<close>
  "ten_page_fs = [[''doc.pdf''] \<mapsto> File (PdfDoc [11, 12, 13, 14, 15, 16, 17, 18, 19, 20])]"

definition collision_fs :: "(nat, nat) content fs" where
  \<comment> \<open>\<open>ten_page_fs\<close> with an output directory that already holds \<open>doc_p1.pdf\<close>\<close>
  "collision_fs = ten_page_fs([''out''] \<mapsto> Dir, [''out'', ''doc_p1.pdf''] \<mapsto> File (PdfDoc [99]))"

section \<open>merge\_to\_pdf.py\<close>

text \<open>
  Pillow is outside the repository: an image is opaque, and the three operations the
  tool uses are parameters of the model. The temporary file that carries the converted
  image to the merger is made and deleted inside \<open>add_file_to_merger\<close> and leaves no
  trace in the file system. A \<open>PdfMerger\<close> is the list of the pages appended so far.
\<close>

record ('p, 'i) pil =
  mode_of :: "'i \<Rightarrow> string"        \<comment> \<open>\<open>img.mode\<close>\<close>
  convert_rgb :: "'i \<Rightarrow> 'i"         \<comment> \<open>\<open>img.convert("RGB")\<close>\<close>
  save_pdf :: "'i \<Rightarrow> 'p"            \<comment> \<open>the page that \<open>img.save(buffer, format="PDF")\<close> writes\<close>

definition IMAGE_EXTS :: "string list" where
  "IMAGE_EXTS = [''.jpg'', ''.jpeg'', ''.png'', ''.tif'', ''.tiff'']"

definition images_to_pdf_bytes ::
  "('p, 'i) pil \<Rightarrow> ('p, 'i) content fs \<Rightarrow> path \<Rightarrow> error + 'p list" where
  \<comment> \<open>the PDF bytes are the document they encode: one page\<close>
  "images_to_pdf_bytes pil fs image_path =
     (if image_path = [] then Inl OSError
      else (case fs image_path of
              None \<Rightarrow> Inl FileNotFoundError
            | Some Dir \<Rightarrow> Inl OSError
            | Some (File (ImageData img)) \<Rightarrow>
                Inr [save_pdf pil
                       (if mode_of pil img \<in> set [''RGBA'', ''LA'', ''P'']
                        then convert_rgb pil img else img)]
            | Some (File c) \<Rightarrow> Inl UnidentifiedImageError))"

definition add_file_to_merger ::
  "('p, 'i) pil \<Rightarrow> ('p, 'i) content fs \<Rightarrow> path \<Rightarrow> 'p list \<Rightarrow> error + 'p list" where
  "add_file_to_merger pil fs f merger =
     (let suffix = lower (suffix_of (path_name f)) in
      if suffix = ''.pdf'' then
        (case PdfReader fs f of
           Inl e \<Rightarrow> Inl e
         | Inr pages \<Rightarrow> Inr (merger @ pages))
      else if suffix \<in> set IMAGE_EXTS then
        (case images_to_pdf_bytes pil fs f of
           Inl e \<Rightarrow> Inl e
         | Inr pdf_bytes \<Rightarrow> Inr (merger @ pdf_bytes))
      else Inr merger)"

fun merge_loop ::
  "('p, 'i) pil \<Rightarrow> ('p, 'i) content fs \<Rightarrow> path list \<Rightarrow> 'p list \<Rightarrow> error + 'p list" where
  \<comment> \<open>\<open>for f in files: add_file_to_merger(f, merger)\<close>\<close>
  "merge_loop pil fs [] merger = Inr merger"
| "merge_loop pil fs (f # files) merger =
     (case add_file_to_merger pil fs f merger of
        Inl e \<Rightarrow> Inl e
      | Inr merger' \<Rightarrow> merge_loop pil fs files merger')"

definition sorted_files :: "'c fs \<Rightarrow> string list \<Rightarrow> path \<Rightarrow> path list" where
  \<comment> \<open>\<open>sorted([p for p in input_dir.iterdir() if p.is_file()], key=lambda p: p.name.lower())\<close>;
      \<open>listing\<close> is the names of the entries of the directory, in the order in which
      the operating system enumerates them\<close>
  "sorted_files fs listing input_dir =
     sort_key (\<lambda>p. lower (path_name p)) (filter (is_file fs) (map (\<lambda>n. input_dir @ [n]) listing))"

definition merge_directory ::
  "('p, 'i) pil \<Rightarrow> string list \<Rightarrow> path \<Rightarrow> path \<Rightarrow> ('p, 'i) content fs
   \<Rightarrow> ('p, 'i) content fs \<times> error option" where
  "merge_directory pil listing input_dir output_pdf fs =
     (let files = sorted_files fs listing input_dir in
      if files = [] then (fs, Some SystemExit)
      else (case merge_loop pil fs files [] of
              Inl e \<Rightarrow> (fs, Some e)
            | Inr merger \<Rightarrow>
                (case open_wb fs output_pdf (PdfDoc merger) of
                   Inl e \<Rightarrow> (fs, Some e)
                 | Inr fs' \<Rightarrow> (fs', None))))"

subsection \<open>The sources of a merge, in the specification's words\<close>

datatype kind = MultiPageDocument | SingleImage | Unsupported

definition kind_of :: "path \<Rightarrow> kind" where
  "kind_of f = (let suffix = lower (suffix_of (path_name f)) in
     if suffix = ''.pdf'' then MultiPageDocument
     else if suffix \<in> set IMAGE_EXTS then SingleImage
     else Unsupported)"



subsection \<open>Directories for the examples\<close>

definition example_pil :: "(nat, nat) pil" where
  \<comment> \<open>an image \<open>i\<close> in mode RGB becomes the page \<open>100 + i\<close>\<close>
  "example_pil = \<lparr>mode_of = (\<lambda>i. ''RGB''), convert_rgb = (\<lambda>i. i), save_pdf = (\<lambda>i. 100 + i)\<rparr>"


definition only_text_fs :: "(nat, nat) content fs" where
  \<comment> \<open>the directory \<open>in\<close> with the single file \<open>notes.txt\<close>\<close>
  "only_text_fs = [[''in''] \<mapsto> Dir, [''in'', ''notes.txt''] \<mapsto> File OtherData]"

section \<open>compress\_pdf2.py\<close>

text \<open>
  The compressor names files by strings, through \<open>os.path\<close>; its file system maps such
  a string to a node. Ghostscript is outside the repository: the subprocess is a
  parameter \<open>run\<close> of the model, which takes the command and the file system and gives
  back how the process ended and the file system it left. \<open>os.path.abspath\<close> depends on
  the working directory and \<open>os.path.getsize\<close> on the representation of a file, so both
  are parameters too. What the tool prints is not modelled.
\<close>

type_synonym 'c sfs = "string \<Rightarrow> 'c node option"

datatype proc = Exited int | NotStarted

definition COMPRESSION_LEVELS :: "string list" where
  \<comment> \<open>the keys of the dictionary\<close>
  "COMPRESSION_LEVELS = [''screen'', ''ebook'', ''printer'', ''prepress'', ''default'']"

definition rfind_int :: "char \<Rightarrow> string \<Rightarrow> int" where
  \<comment> \<open>\<open>s.rfind(c)\<close>, with Python's \<open>-1\<close>\<close>
  "rfind_int c s = (case rfind c s of None \<Rightarrow> - 1 | Some i \<Rightarrow> int i)"

definition os_path_split :: "string \<Rightarrow> string \<times> string" where
  "os_path_split p =
     (let i = nat (rfind_int CHR ''/'' p + 1);
          head = take i p;
          tail = drop i p
      in (if head \<noteq> [] \<and> \<not> list_all (\<lambda>c. c = CHR ''/'') head
          then rev (dropWhile (\<lambda>c. c = CHR ''/'') (rev head)) else head,
          tail))"

definition os_path_splitext :: "string \<Rightarrow> string \<times> string" where
  \<comment> \<open>the extension starts at the last dot, when that dot comes after the last slash
      and some character between them is not a dot\<close>
  "os_path_splitext p =
     (let sepIndex = rfind_int CHR ''/'' p;
          dotIndex = rfind_int CHR ''.'' p
      in if dotIndex > sepIndex
            \<and> list_ex (\<lambda>c. c \<noteq> CHR ''.'')
                 (take (nat (dotIndex - (sepIndex + 1))) (drop (nat (sepIndex + 1)) p))
         then (take (nat dotIndex) p, drop (nat dotIndex) p)
         else (p, []))"

definition os_path_join :: "string \<Rightarrow> string \<Rightarrow> string" where
  "os_path_join a b =
     (if b \<noteq> [] \<and> hd b = CHR ''/'' then b
      else if a = [] \<or> last a = CHR ''/'' then a @ b
      else a @ ''/'' @ b)"

definition default_output :: "string \<Rightarrow> string" where
  \<comment> \<open>\<open>os.path.join(dir_path, f"{base_name}_compressed{ext}")\<close>\<close>
  "default_output input_path =
     (case os_path_split input_path of
        (dir_path, filename) \<Rightarrow>
          (case os_path_splitext filename of
             (base_name, ext) \<Rightarrow> os_path_join dir_path (base_name @ ''_compressed'' @ ext)))"

definition os_exists :: "'c sfs \<Rightarrow> string \<Rightarrow> bool" where
  "os_exists fs p = (fs p \<noteq> None)"

definition os_isfile :: "'c sfs \<Rightarrow> string \<Rightarrow> bool" where
  "os_isfile fs p = (case fs p of Some (File c) \<Rightarrow> True | _ \<Rightarrow> False)"

definition os_remove :: "'c sfs \<Rightarrow> string \<Rightarrow> error + 'c sfs" where
  \<comment> \<open>\<open>os.remove(p)\<close> deletes a file and fails on a directory\<close>
  "os_remove fs p =
     (case fs p of
        None \<Rightarrow> Inl FileNotFoundError
      | Some Dir \<Rightarrow> Inl OSError
      | Some (File c) \<Rightarrow> Inr (fs(p := None)))"

definition gs_command :: "string \<Rightarrow> string \<Rightarrow> string \<Rightarrow> string list" where
  "gs_command compression_level output_path input_path =
     [''gs'', ''-sDEVICE=pdfwrite'', ''-dPDFSETTINGS=/'' @ compression_level,
      ''-dCompatibilityLevel=1.4'', ''-dNOPAUSE'', ''-dQUIET'', ''-dBATCH'',
      ''-sOutputFile='' @ output_path, input_path]"

definition after_run ::
  "('c node \<Rightarrow> nat) \<Rightarrow> proc \<Rightarrow> 'c sfs \<Rightarrow> string \<Rightarrow> string \<Rightarrow> error + string" where
  \<comment> \<open>the body of the \<open>try\<close>, from the return of \<open>subprocess.run(..., check=True)\<close> on\<close>
  "after_run getsize r fs input_path output_path =
     (case r of
        NotStarted \<Rightarrow> Inl OSError
      | Exited rc \<Rightarrow>
          if rc \<noteq> 0 then Inl (CalledProcessError rc)
          else (case fs output_path of
                  None \<Rightarrow> Inl FileNotFoundError
                | Some out_node \<Rightarrow>
                    (case fs input_path of
                       None \<Rightarrow> Inl FileNotFoundError
                     | Some in_node \<Rightarrow>
                         if getsize out_node > 0 \<and> getsize in_node > 0
                         then Inr output_path
                         else Inr output_path)))"

definition cleanup :: "'c sfs \<Rightarrow> string \<Rightarrow> error \<Rightarrow> 'c sfs \<times> (error + string)" where
  \<comment> \<open>either \<open>except\<close> clause: remove the output if it exists, then raise again\<close>
  "cleanup fs output_path e =
     (if os_exists fs output_path
      then (case os_remove fs output_path of
              Inl e' \<Rightarrow> (fs, Inl e')
            | Inr fs' \<Rightarrow> (fs', Inl e))
      else (fs, Inl e))"

definition compress_pdf ::
  "(string \<Rightarrow> string) \<Rightarrow> ('c node \<Rightarrow> nat) \<Rightarrow> (string list \<Rightarrow> 'c sfs \<Rightarrow> proc \<times> 'c sfs)
   \<Rightarrow> string \<Rightarrow> string option \<Rightarrow> string \<Rightarrow> bool \<Rightarrow> 'c sfs
   \<Rightarrow> 'c sfs \<times> (error + string)" where
  "compress_pdf abspath getsize run input_arg output_arg compression_level force fs =
     (let input_path = abspath input_arg in
      if \<not> os_isfile fs input_path then (fs, Inl FileNotFoundError)
      else
        (let output_path = abspath (case output_arg of
                                      None \<Rightarrow> default_output input_path
                                    | Some p \<Rightarrow> p) in
         if os_exists fs output_path \<and> \<not> force then (fs, Inl FileExistsError)
         else if compression_level \<notin> set COMPRESSION_LEVELS
              then (fs, Inl (InvalidLevel compression_level))
         else (case run (gs_command compression_level output_path input_path) fs of
                 (r, fs1) \<Rightarrow>
                   (case after_run getsize r fs1 input_path output_path of
                      Inr p \<Rightarrow> (fs1, Inr p)
                    | Inl e \<Rightarrow> cleanup fs1 output_path e))))"

subsection \<open>A failing run for the examples\<close>

definition compress_example_fs :: "nat sfs" where
  \<comment> \<open>a file of five bytes at \<open>/in.pdf\<close>\<close>
  "compress_example_fs = [''/in.pdf'' \<mapsto> File 5]"

definition failing_gs :: "string list \<Rightarrow> nat sfs \<Rightarrow> proc \<times> nat sfs" where
  \<comment> \<open>a process that writes three bytes to \<open>/out.pdf\<close> and exits with status 1\<close>
  "failing_gs cmd fs = (Exited 1, fs(''/out.pdf'' \<mapsto> File 3))"

definition example_getsize :: "nat node \<Rightarrow> nat" where
  \<comment> \<open>a file is its number of bytes\<close>
  "example_getsize n = (case n of File k \<Rightarrow> k | Dir \<Rightarrow> 0)"

section \<open>Proofs: parse\_ranges\<close>

lemma digit_val_nonneg: "is_digit c \<Longrightarrow> 0 \<le> digit_val c"
  by (simp add: is_digit_def digit_val_def Let_def)

lemma foldl_digits_nonneg:
  "list_all is_digit ds \<Longrightarrow> 0 \<le> a \<Longrightarrow> 0 \<le> foldl (\<lambda>a c. 10 * a + digit_val c) a ds"
  by (induction ds arbitrary: a) (simp_all add: digit_val_nonneg)

lemma digits_value_nonneg: "0 \<le> digits_value (filter is_digit b)"
  unfolding digits_value_def
  by (rule foldl_digits_nonneg) (simp_all add: list_all_iff)



lemma py_int_no_hyphen_nonneg:
  assumes "py_int x = Inr v" and "CHR ''-'' \<notin> set x"
  shows "0 \<le> v"
proof -
  have "CHR ''-'' \<notin> set (dropWhile is_int_space x)"
    using assms(2) set_dropWhileD by fastforce
  then have "\<not> (dropWhile is_int_space x \<noteq> [] \<and> hd (dropWhile is_int_space x) = CHR ''-'')"
    using hd_in_set by metis
  with assms(1) show ?thesis
    by (auto simp: py_int_def Let_def digits_value_nonneg split: if_splits)
qed


lemma split_once_two:
  "sep \<in> set s \<Longrightarrow> split_once sep s = [takeWhile (\<lambda>c. c \<noteq> sep) s, tl (dropWhile (\<lambda>c. c \<noteq> sep) s)]"
  by (simp add: split_once_def)

lemma parse_part_bounds:
  assumes "parse_part p = Inr (a, b)"
  shows "0 \<le> a \<and> a \<le> b"
proof (cases "CHR ''-'' \<in> set (strip p)")
  case True
  let ?x1 = "takeWhile (\<lambda>c. c \<noteq> CHR ''-'') (strip p)"
  let ?x2 = "tl (dropWhile (\<lambda>c. c \<noteq> CHR ''-'') (strip p))"
  from assms True have "py_int ?x1 = Inr a" and "py_int ?x2 = Inr b" and "a \<le> b"
    by (auto simp: parse_part_def Let_def split_once_two split: sum.splits if_splits)
  moreover have "CHR ''-'' \<notin> set ?x1"
    using set_takeWhileD by fastforce
  ultimately show ?thesis using py_int_no_hyphen_nonneg by blast
next
  case False
  with assms have "py_int (strip p) = Inr a" and "b = a"
    by (auto simp: parse_part_def Let_def split: sum.splits)
  then show ?thesis using False py_int_no_hyphen_nonneg by auto
qed

lemma parse_loop_Inr:
  "parse_loop acc ps = Inr rs \<Longrightarrow>
   \<exists>rs'. rs = acc @ rs' \<and> list_all2 (\<lambda>p r. parse_part p = Inr r) ps rs'"
proof (induction ps arbitrary: acc)
  case Nil
  then show ?case by simp
next
  case (Cons p ps)
  then obtain r where r: "parse_part p = Inr r" and rest: "parse_loop (acc @ [r]) ps = Inr rs"
    by (auto split: sum.splits)
  from Cons.IH[OF rest] obtain rs' where "rs = (acc @ [r]) @ rs'"
    and "list_all2 (\<lambda>p r. parse_part p = Inr r) ps rs'" by blast
  then show ?case using r by (intro exI[of _ "r # rs'"]) simp
qed



text \<open>
  Claim C4, as the code has it: \<open>parse_ranges\<close> makes no check that a bound is
  positive. Every range it returns has a first bound that is not negative and a second
  bound that is not below the first; a bound of zero is accepted.
\<close>

theorem parse_ranges_bounds:
  assumes "parse_ranges s = Inr rs" and "(a, b) \<in> set rs"
  shows "0 \<le> a \<and> a \<le> b"
proof -
  from assms(1) obtain rs' where "rs = [] @ rs'"
    and l: "list_all2 (\<lambda>p r. parse_part p = Inr r) (split_on CHR '','' s) rs'"
    unfolding parse_ranges_def using parse_loop_Inr by blast
  then have "rs' = rs" by simp
  with l assms(2) obtain p where "parse_part p = Inr (a, b)"
    by (auto simp: list_all2_conv_all_nth in_set_conv_nth)
  then show ?thesis by (rule parse_part_bounds)
qed

theorem parse_ranges_bounds_witness:
  "parse_ranges ''0-3,5'' = Inr [(0, 3), (5, 5)] \<and> (0, 3) \<in> set [(0, 3), (5, 5 :: int)]
   \<and> (0 :: int) \<le> 0 \<and> (0 :: int) \<le> 3"
proof -
  have 1: "parse_ranges ''0-3,5'' = Inr [(0, 3), (5, 5)]" by code_simp
  have 2: "(0, 3) \<in> set [(0, 3), (5, 5 :: int)]" by simp
  from parse_ranges_bounds[OF 1 2] 1 2 show ?thesis by simp
qed

text \<open>
  Claim C4 as stated fails: the specs \<open>0\<close> and \<open>0-3\<close> are parsed, with a bound
  that is not positive.
\<close>

theorem parse_ranges_accepts_zero:
  "parse_ranges ''0'' = Inr [(0, 0)] \<and> parse_ranges ''0-3'' = Inr [(0, 3)]"
  by code_simp

lemma split_on_nonempty: "split_on sep s \<noteq> []"
  by (induction s) (auto split: list.splits)
























section \<open>Proofs: the file system and write\_pdf\<close>

declare mkdir_parents.simps [simp del] nearest_is_dir.simps [simp del]

lemma mkdir_parents_root [simp]: "mkdir_parents fs [] = Inr fs"
  by (simp add: mkdir_parents.simps)

lemma nearest_is_dir_root [simp]: "nearest_is_dir fs []"
  by (simp add: nearest_is_dir.simps)

lemma mkdir_parents_ok_iff: "isl (mkdir_parents fs p) \<longleftrightarrow> \<not> nearest_is_dir fs p"
proof (induction fs p rule: mkdir_parents.induct)
  case (1 fs p)
  show ?case
  proof (cases "p = []")
    case True
    then show ?thesis by simp
  next
    case False
    then show ?thesis
      using 1 by (subst mkdir_parents.simps, subst nearest_is_dir.simps)
                 (auto split: option.splits node.splits sum.splits)
  qed
qed

lemma mkdir_parents_error: "mkdir_parents fs p = Inl e \<Longrightarrow> e = OSError"
proof (induction fs p rule: mkdir_parents.induct)
  case (1 fs p)
  from "1.prems" show ?case
    by (subst (asm) mkdir_parents.simps)
       (auto split: if_splits option.splits node.splits sum.splits dest: "1.IH")
qed

lemma mkdir_parents_result:
  "mkdir_parents fs p = Inr fs' \<Longrightarrow>
     is_dir fs' p
     \<and> (\<forall>q. fs q \<noteq> None \<longrightarrow> fs' q = fs q)
     \<and> (\<forall>q. fs' q \<noteq> fs q \<longrightarrow> fs' q = Some Dir \<and> prefix q p)"
proof (induction fs p arbitrary: fs' rule: mkdir_parents.induct)
  case (1 fs p)
  show ?case
  proof (cases "p = []")
    case True
    with "1.prems" show ?thesis by (simp add: is_dir_def)
  next
    case False
    note ne = this
    show ?thesis
    proof (cases "fs p")
      case None
      with ne "1.prems" obtain fs1 where m: "mkdir_parents fs (butlast p) = Inr fs1"
        and fs': "fs' = fs1(p \<mapsto> Dir)"
        by (subst (asm) mkdir_parents.simps) (auto split: sum.splits)
      note ih = "1.IH"[OF ne None m]
      have pre: "prefix q p" if "prefix q (butlast p)" for q
        using that by (metis prefix_order.trans prefixeq_butlast)
      show ?thesis
        using ih None pre by (auto simp: fs' is_dir_def)
    next
      case (Some n)
      with ne "1.prems" show ?thesis
        by (subst (asm) mkdir_parents.simps) (auto simp: is_dir_def split: node.splits)
    qed
  qed
qed

lemma mkdir_parents_dir: "is_dir fs p \<Longrightarrow> mkdir_parents fs p = Inr fs"
  by (subst mkdir_parents.simps) (auto simp: is_dir_def)

lemma prefix_butlast_self: "prefix p (butlast p) \<Longrightarrow> p = []"
proof -
  assume "prefix p (butlast p)"
  then have "length p \<le> length (butlast p)" by (rule prefix_length_le)
  then have "length p \<le> length p - 1" by (simp only: length_butlast)
  then show ?thesis by (cases p) simp_all
qed

lemma mkdir_parents_keeps_target:
  assumes "mkdir_parents fs (butlast p) = Inr fs1" and "p \<noteq> []"
  shows "fs1 p = fs p"
  using mkdir_parents_result[OF assms(1)] prefix_butlast_self[of p] assms(2) by metis

lemma write_pdf_refused:
  "path_exists fs p \<Longrightarrow> \<not> overwrite \<Longrightarrow> write_pdf writer p overwrite fs = (fs, Some FileExistsError)"
  by (simp add: write_pdf_def)

lemma write_pdf_written:
  assumes "\<not> (path_exists fs p \<and> \<not> overwrite)" and "nearest_is_dir fs (butlast p)" and "\<not> is_dir fs p"
  shows "\<exists>fs1. mkdir_parents fs (butlast p) = Inr fs1
           \<and> write_pdf writer p overwrite fs = (fs1(p \<mapsto> File (PdfDoc writer)), None)"
proof -
  from assms(2) obtain fs1 where m: "mkdir_parents fs (butlast p) = Inr fs1"
    using mkdir_parents_ok_iff[of fs "butlast p"] by (cases "mkdir_parents fs (butlast p)") auto
  from assms(3) have ne: "p \<noteq> []" by (auto simp: is_dir_def)
  have "fs1 p = fs p" using mkdir_parents_keeps_target[OF m ne] .
  with assms(3) ne have nd: "\<not> is_dir fs1 p" by (simp add: is_dir_def)
  have d: "is_dir fs1 (butlast p)" using mkdir_parents_result[OF m] by blast
  have "write_pdf writer p overwrite fs = (fs1(p \<mapsto> File (PdfDoc writer)), None)"
    using assms(1) m nd d by (simp add: write_pdf_def open_wb_def)
  with m show ?thesis by blast
qed

lemma write_pdf_os_failure:
  assumes "\<not> (path_exists fs p \<and> \<not> overwrite)" and "\<not> nearest_is_dir fs (butlast p) \<or> is_dir fs p"
  shows "snd (write_pdf writer p overwrite fs) = Some OSError \<and> fst (write_pdf writer p overwrite fs) p = fs p"
proof (cases "mkdir_parents fs (butlast p)")
  case (Inl e)
  then have "e = OSError" by (rule mkdir_parents_error)
  with Inl assms(1) show ?thesis by (simp add: write_pdf_def)
next
  case (Inr fs1)
  then have "nearest_is_dir fs (butlast p)"
    using mkdir_parents_ok_iff[of fs "butlast p"] by auto
  with assms(2) have dp: "is_dir fs p" by simp
  have k: "fs1 p = fs p"
  proof (cases "p = []")
    case True
    with Inr show ?thesis by simp
  next
    case False
    then show ?thesis using mkdir_parents_keeps_target[OF Inr] by simp
  qed
  with dp have "is_dir fs1 p" by (simp add: is_dir_def)
  with Inr assms(1) k show ?thesis by (simp add: write_pdf_def open_wb_def)
qed



section \<open>Proofs: extraction by ranges\<close>

lemma add_pages_loop_upto:
  "0 \<le> a \<Longrightarrow>
   add_pages_loop w reader [a..b] =
     (if b < a then Inr w
      else if b < int (length reader) then Inr (w @ map (\<lambda>i. reader ! nat i) [a..b])
      else Inl (IndexError (max a (int (length reader)) + 1)))"
proof (induction a b arbitrary: w rule: upto.induct)
  case (1 a b)
  show ?case
  proof (cases "a \<le> b")
    case False
    then show ?thesis by simp
  next
    case True
    then have u: "[a..b] = a # [a + 1..b]" by (rule upto_rec1)
    show ?thesis
    proof (cases "a < int (length reader)")
      case False
      with True "1.prems" show ?thesis by (simp add: u max_def)
    next
      case lt: True
      have ih: "add_pages_loop (w @ [reader ! nat a]) reader [a + 1..b] =
        (if b < a + 1 then Inr (w @ [reader ! nat a])
         else if b < int (length reader)
              then Inr ((w @ [reader ! nat a]) @ map (\<lambda>i. reader ! nat i) [a + 1..b])
              else Inl (IndexError (max (a + 1) (int (length reader)) + 1)))"
        using "1.IH"[OF True, of "w @ [reader ! nat a]"] "1.prems" by simp
      show ?thesis
      proof (cases "b < a + 1")
        case True
        with \<open>a \<le> b\<close> have "b = a" by simp
        with lt "1.prems" show ?thesis by (simp add: u)
      next
        case False
        with lt "1.prems" True ih show ?thesis by (auto simp: u max_def)
      qed
    qed
  qed
qed

lemma add_pages_in_bounds:
  assumes "1 \<le> start" and "stop \<le> int (length reader)"
  shows "add_pages w reader start stop = Inr (w @ map (\<lambda>i. reader ! nat i) [start - 1 .. stop - 1])"
  using assms add_pages_loop_upto[of "start - 1" w reader "stop - 1"]
  by (auto simp: add_pages_def)

lemma add_pages_out_of_bounds:
  assumes "\<exists>i. start - 1 \<le> i \<and> i < stop \<and> (i < 0 \<or> int (length reader) \<le> i)"
  shows "add_pages w reader start stop = Inl (IndexError (offending_page start (length reader)))"
proof -
  from assms have le: "start \<le> stop" and bad: "start \<le> 0 \<or> int (length reader) < stop"
    by auto
  show ?thesis
  proof (cases "start \<le> 0")
    case True
    from le have "[start - 1 .. stop - 1] = (start - 1) # [start - 1 + 1 .. stop - 1]"
      by (intro upto_rec1) simp
    with True show ?thesis by (simp add: add_pages_def offending_page_def)
  next
    case False
    with bad have "int (length reader) < stop" by simp
    with False le show ?thesis
      using add_pages_loop_upto[of "start - 1" w reader "stop - 1"]
      by (auto simp: add_pages_def offending_page_def max_def)
  qed
qed

lemma selected_pages:
  assumes "1 \<le> start" and "stop \<le> int (length reader)"
  shows "map (\<lambda>i. reader ! nat i) [start - 1 .. stop - 1]
         = take (nat (stop - start + 1)) (drop (nat (start - 1)) reader)"
proof (rule nth_equalityI)
  show "length (map (\<lambda>i. reader ! nat i) [start - 1 .. stop - 1])
        = length (take (nat (stop - start + 1)) (drop (nat (start - 1)) reader))"
    using assms by auto
next
  fix i assume "i < length (map (\<lambda>i. reader ! nat i) [start - 1 .. stop - 1])"
  then have i: "int i < stop - start + 1" by auto
  then have "[start - 1 .. stop - 1] ! i = start - 1 + int i" by (intro nth_upto) simp
  moreover have "nat (start - 1 + int i) = nat (start - 1) + i" using assms(1) by simp
  ultimately show "map (\<lambda>i. reader ! nat i) [start - 1 .. stop - 1] ! i
        = take (nat (stop - start + 1)) (drop (nat (start - 1)) reader) ! i"
    using i assms by (simp add: nth_append)
qed

lemma write_pdf_in_dir:
  assumes "is_dir fs d"
  shows "write_pdf w (d @ [n]) overwrite fs =
     (if path_exists fs (d @ [n]) \<and> \<not> overwrite then (fs, Some FileExistsError)
      else if is_dir fs (d @ [n]) then (fs, Some OSError)
      else (fs(d @ [n] \<mapsto> File (PdfDoc w)), None))"
  using assms by (simp add: write_pdf_def mkdir_parents_dir open_wb_def)

lemma write_pdf_keeps_dir:
  assumes "is_dir fs d"
  shows "is_dir (fst (write_pdf w (d @ [n]) overwrite fs)) d"
  using assms by (auto simp: write_pdf_in_dir is_dir_def)

lemma split_ranges_keeps_dir:
  "is_dir fs d \<Longrightarrow> is_dir (fst (split_ranges reader stem d overwrite rs fs)) d"
proof (induction rs arbitrary: fs)
  case Nil
  then show ?case by simp
next
  case (Cons r rs)
  obtain start stop where r: "r = (start, stop)" by (cases r)
  show ?case
  proof (cases "add_pages [] reader start stop")
    case (Inl e)
    with Cons.prems r show ?thesis by simp
  next
    case (Inr w)
    obtain fs' oe where res: "write_pdf w (range_path d stem start stop) overwrite fs = (fs', oe)"
      by (cases "write_pdf w (range_path d stem start stop) overwrite fs")
    have d1: "is_dir fs' d"
      using write_pdf_keeps_dir[OF Cons.prems, of w "stem @ ''_'' @ range_label start stop @ ''.pdf''" overwrite] res
      by (simp add: range_path_def)
    show ?thesis
    proof (cases oe)
      case None
      with res r Inr have "split_ranges reader stem d overwrite (r # rs) fs
            = split_ranges reader stem d overwrite rs fs'" by simp
      with Cons.IH[OF d1] show ?thesis by simp
    next
      case (Some e)
      with res r Inr have "split_ranges reader stem d overwrite (r # rs) fs = (fs', Some e)"
        by simp
      with d1 show ?thesis by simp
    qed
  qed
qed

lemma split_ranges_append:
  "split_ranges reader stem d overwrite (rs1 @ rs2) fs =
     (case split_ranges reader stem d overwrite rs1 fs of
        (fs1, None) \<Rightarrow> split_ranges reader stem d overwrite rs2 fs1
      | (fs1, Some e) \<Rightarrow> (fs1, Some e))"
proof (induction rs1 arbitrary: fs)
  case Nil
  then show ?case by simp
next
  case (Cons r rs1)
  obtain start stop where r: "r = (start, stop)" by (cases r)
  show ?case
    by (simp add: r Cons.IH split: sum.splits prod.splits option.splits)
qed

lemma split_pdf_ranges_ok:
  assumes "split_pdf src dest (Some rs) overwrite fs = (fs1, None)"
  shows "\<exists>reader fs0. PdfReader fs src = Inr reader \<and> mkdir_parents fs dest = Inr fs0
           \<and> split_ranges reader (stem_of (path_name src)) dest overwrite rs fs0 = (fs1, None)
           \<and> is_dir fs1 dest"
proof -
  from assms obtain reader fs0 where 1: "PdfReader fs src = Inr reader"
    and 2: "mkdir_parents fs dest = Inr fs0"
    and 3: "split_ranges reader (stem_of (path_name src)) dest overwrite rs fs0 = (fs1, None)"
    by (auto simp: split_pdf_def split: sum.splits)
  have "is_dir fs0 dest" using mkdir_parents_result[OF 2] by blast
  from split_ranges_keeps_dir[OF this, of reader "stem_of (path_name src)" overwrite rs] 3
  have "is_dir fs1 dest" by simp
  with 1 2 3 show ?thesis by blast
qed

text \<open>
  Claim C7: after the ranges \<open>rs\<close> have been extracted, a further range
  \<open>(start, stop)\<close> within the bounds of the source, whose output path is not refused,
  produces a document at \<open><stem>_<start>.pdf\<close> when \<open>start = stop\<close> and at
  \<open><stem>_<start>-<stop>.pdf\<close> otherwise. The document holds the pages of the source
  with the 0-based indices \<open>start - 1\<close> to \<open>stop - 1\<close> in ascending order, that is
  \<open>stop - start + 1\<close> pages, and nothing else changes.
\<close>

theorem split_pdf_range_in_bounds:
  assumes "split_pdf src dest (Some rs) overwrite fs = (fs1, None)"
    and "PdfReader fs src = Inr reader"
    and "1 \<le> start" and "start \<le> stop" and "stop \<le> int (length reader)"
    and "out = range_path dest (stem_of (path_name src)) start stop"
    and "overwrite \<or> \<not> path_exists fs1 out" and "\<not> is_dir fs1 out"
  shows "split_pdf src dest (Some (rs @ [(start, stop)])) overwrite fs
           = (fs1(out \<mapsto> File (PdfDoc (map (\<lambda>i. reader ! nat i) [start - 1 .. stop - 1]))), None)
         \<and> map (\<lambda>i. reader ! nat i) [start - 1 .. stop - 1]
             = take (nat (stop - start + 1)) (drop (nat (start - 1)) reader)
         \<and> length (map (\<lambda>i. reader ! nat i) [start - 1 .. stop - 1]) = nat (stop - start + 1)
         \<and> out = dest @ [stem_of (path_name src) @ ''_''
                   @ (if start = stop then str_int start else str_int start @ ''-'' @ str_int stop)
                   @ ''.pdf'']"
proof -
  let ?stem = "stem_of (path_name src)"
  let ?sel = "map (\<lambda>i. reader ! nat i) [start - 1 .. stop - 1]"
  from split_pdf_ranges_ok[OF assms(1)] assms(2) obtain fs0
    where m: "mkdir_parents fs dest = Inr fs0"
      and s: "split_ranges reader ?stem dest overwrite rs fs0 = (fs1, None)"
      and d: "is_dir fs1 dest" by auto
  have a: "add_pages [] reader start stop = Inr ?sel"
    using add_pages_in_bounds[OF assms(3,5), of "[]"] by simp
  have o: "out = dest @ [?stem @ ''_'' @ range_label start stop @ ''.pdf'']"
    using assms(6) by (simp add: range_path_def)
  have w: "write_pdf ?sel out overwrite fs1 = (fs1(out \<mapsto> File (PdfDoc ?sel)), None)"
    unfolding o using write_pdf_in_dir[OF d] assms(7,8) o by auto
  have "split_ranges reader ?stem dest overwrite (rs @ [(start, stop)]) fs0
          = (fs1(out \<mapsto> File (PdfDoc ?sel)), None)"
    using s a w assms(6) by (simp add: split_ranges_append)
  then have 1: "split_pdf src dest (Some (rs @ [(start, stop)])) overwrite fs
          = (fs1(out \<mapsto> File (PdfDoc ?sel)), None)"
    using assms(2) m by (simp add: split_pdf_def)
  have 2: "?sel = take (nat (stop - start + 1)) (drop (nat (start - 1)) reader)"
    using selected_pages[OF assms(3,5)] .
  have 3: "length ?sel = nat (stop - start + 1)" using assms(4) by simp
  from 1 2 3 o show ?thesis by (simp add: range_label_def)
qed

text \<open>
  Claim C3, as the code has it: after the ranges \<open>rs\<close> have been extracted, a range
  that needs a page index below \<open>0\<close> or not below the page count makes the run fail
  with an \<open>IndexError\<close> that carries the 1-based number of the first such page, and
  nothing else. The file system is the one the earlier ranges left: nothing is written
  for this range or for a later one, and nothing written before is taken back.
\<close>

theorem split_pdf_range_out_of_bounds:
  assumes "split_pdf src dest (Some rs) overwrite fs = (fs1, None)"
    and "PdfReader fs src = Inr reader"
    and "\<exists>i. start - 1 \<le> i \<and> i < stop \<and> (i < 0 \<or> int (length reader) \<le> i)"
  shows "split_pdf src dest (Some (rs @ (start, stop) # rest)) overwrite fs
           = (fs1, Some (IndexError (offending_page start (length reader))))"
proof -
  let ?stem = "stem_of (path_name src)"
  from split_pdf_ranges_ok[OF assms(1)] assms(2) obtain fs0
    where m: "mkdir_parents fs dest = Inr fs0"
      and s: "split_ranges reader ?stem dest overwrite rs fs0 = (fs1, None)" by auto
  have "split_ranges reader ?stem dest overwrite (rs @ (start, stop) # rest) fs0
          = (fs1, Some (IndexError (offending_page start (length reader))))"
    using s add_pages_out_of_bounds[OF assms(3), of "[]"] by (simp add: split_ranges_append)
  then show ?thesis using assms(2) m by (simp add: split_pdf_def)
qed

lemma str_int_2: "str_int 2 = ''2''" by code_simp

lemma str_int_4: "str_int 4 = ''4''" by code_simp

lemma stem_doc: "stem_of (path_name [''doc.pdf'']) = ''doc''"
  by (simp add: stem_of_def path_name_def rfind_def)

lemma ten_page_reader: "PdfReader ten_page_fs [''doc.pdf''] = Inr [11, 12, 13, 14, 15, 16, 17, 18, 19, 20]"
  by (simp add: PdfReader_def ten_page_fs_def)

lemma ten_page_no_ranges:
  "split_pdf [''doc.pdf''] [''out''] (Some []) False ten_page_fs = (ten_page_fs([''out''] \<mapsto> Dir), None)"
  by (simp add: split_pdf_def ten_page_reader) (simp add: mkdir_parents.simps ten_page_fs_def)

theorem split_pdf_range_in_bounds_witness:
  "split_pdf [''doc.pdf''] [''out''] (Some []) False ten_page_fs = (ten_page_fs([''out''] \<mapsto> Dir), None)
   \<and> PdfReader ten_page_fs [''doc.pdf''] = Inr [11, 12, 13, 14, 15, 16, 17, 18, 19, 20]
   \<and> (1 :: int) \<le> 2 \<and> (2 :: int) \<le> 4 \<and> (4 :: int) \<le> int (length [11, 12, 13, 14, 15, 16, 17, 18, 19, 20 :: nat])
   \<and> \<not> path_exists (ten_page_fs([''out''] \<mapsto> Dir)) [''out'', ''doc_2-4.pdf'']
   \<and> \<not> is_dir (ten_page_fs([''out''] \<mapsto> Dir)) [''out'', ''doc_2-4.pdf'']
   \<and> split_pdf [''doc.pdf''] [''out''] (Some [(2, 4)]) False ten_page_fs
       = ((ten_page_fs([''out''] \<mapsto> Dir))([''out'', ''doc_2-4.pdf''] \<mapsto> File (PdfDoc [12, 13, 14])), None)"
proof -
  have o: "[''out'', ''doc_2-4.pdf''] = range_path [''out''] (stem_of (path_name [''doc.pdf''])) 2 4"
    by (simp add: stem_doc range_path_def range_label_def str_int_2 str_int_4)
  have e: "\<not> path_exists (ten_page_fs([''out''] \<mapsto> Dir)) [''out'', ''doc_2-4.pdf'']"
    by (simp add: path_exists_def ten_page_fs_def)
  have d: "\<not> is_dir (ten_page_fs([''out''] \<mapsto> Dir)) [''out'', ''doc_2-4.pdf'']"
    by (simp add: is_dir_def ten_page_fs_def)
  have l: "(4 :: int) \<le> int (length [11, 12, 13, 14, 15, 16, 17, 18, 19, 20 :: nat])" by simp
  have s: "map (\<lambda>i. [11, 12, 13, 14, 15, 16, 17, 18, 19, 20 :: nat] ! nat i) [2 - 1 .. 4 - 1] = [12, 13, 14]"
    by (simp add: upto_rec1)
  from split_pdf_range_in_bounds[OF ten_page_no_ranges ten_page_reader _ _ l o] e d
  have "split_pdf [''doc.pdf''] [''out''] (Some [(2, 4)]) False ten_page_fs
       = ((ten_page_fs([''out''] \<mapsto> Dir))([''out'', ''doc_2-4.pdf''] \<mapsto> File (PdfDoc [12, 13, 14])), None)"
    unfolding s by simp
  with ten_page_no_ranges ten_page_reader e d show ?thesis by simp
qed

theorem split_pdf_range_out_of_bounds_witness:
  "split_pdf [''doc.pdf''] [''out''] (Some []) False ten_page_fs = (ten_page_fs([''out''] \<mapsto> Dir), None)
   \<and> PdfReader ten_page_fs [''doc.pdf''] = Inr [11, 12, 13, 14, 15, 16, 17, 18, 19, 20]
   \<and> (9 - 1 \<le> (10 :: int) \<and> (10 :: int) < 12
        \<and> int (length [11, 12, 13, 14, 15, 16, 17, 18, 19, 20 :: nat]) \<le> 10)
   \<and> split_pdf [''doc.pdf''] [''out''] (Some [(9, 12)]) False ten_page_fs
       = (ten_page_fs([''out''] \<mapsto> Dir), Some (IndexError 11))"
proof -
  have b: "\<exists>i. 9 - 1 \<le> i \<and> i < 12 \<and> (i < 0 \<or> int (length [11, 12, 13, 14, 15, 16, 17, 18, 19, 20 :: nat]) \<le> i)"
    by (intro exI[of _ 10]) simp
  from split_pdf_range_out_of_bounds[OF ten_page_no_ranges ten_page_reader b, of "[]"]
  have "split_pdf [''doc.pdf''] [''out''] (Some [(9, 12)]) False ten_page_fs
       = (ten_page_fs([''out''] \<mapsto> Dir), Some (IndexError 11))"
    by (simp add: offending_page_def)
  with ten_page_no_ranges ten_page_reader show ?thesis by simp
qed

text \<open>
  Claim C3 as stated fails: the error does not identify the range. On the document of
  ten pages the ranges \<open>(9, 12)\<close> and \<open>(11, 11)\<close> end in the same file system with
  the same error, \<open>Page 11 is out of bounds\<close>.
\<close>

theorem index_error_without_range:
  "split_pdf [''doc.pdf''] [''out''] (Some [(9, 12)]) False ten_page_fs
     = (ten_page_fs([''out''] \<mapsto> Dir), Some (IndexError 11))
   \<and> split_pdf [''doc.pdf''] [''out''] (Some [(11, 11)]) False ten_page_fs
     = (ten_page_fs([''out''] \<mapsto> Dir), Some (IndexError 11))"
proof -
  have m: "mkdir_parents ten_page_fs [''out''] = Inr (ten_page_fs([''out''] \<mapsto> Dir))"
    by (simp add: mkdir_parents.simps ten_page_fs_def)
  have 1: "add_pages [] [11, 12, 13, 14, 15, 16, 17, 18, 19, 20 :: nat] 9 12 = Inl (IndexError 11)"
    by (simp add: add_pages_def upto_rec1)
  have 2: "add_pages [] [11, 12, 13, 14, 15, 16, 17, 18, 19, 20 :: nat] 11 11 = Inl (IndexError 11)"
    by (simp add: add_pages_def upto_rec1)
  show ?thesis by (simp add: split_pdf_def ten_page_reader m 1 2)
qed

section \<open>Proofs: extraction by pages\<close>

declare str_nat.simps [simp del]

lemma str_nat_nonempty: "str_nat n \<noteq> []"
  by (subst str_nat.simps) simp

lemma digit_char_inj: "a < 10 \<Longrightarrow> b < 10 \<Longrightarrow> digit_char a = digit_char b \<Longrightarrow> a = b"
proof -
  assume a: "a < 10" "b < 10" "digit_char a = digit_char b"
  then have "of_char (char_of (48 + a) :: char) = (of_char (char_of (48 + b) :: char) :: nat)"
    by (simp add: digit_char_def)
  with a(1,2) show ?thesis by simp
qed

lemma str_nat_inj: "str_nat m = str_nat n \<Longrightarrow> m = n"
proof (induction m arbitrary: n rule: str_nat.induct)
  case (1 m)
  show ?case
  proof (cases "m < 10")
    case True
    then have m: "str_nat m = [digit_char m]" by (subst str_nat.simps) simp
    show ?thesis
    proof (cases "n < 10")
      case True
      then have "str_nat n = [digit_char n]" by (subst str_nat.simps) simp
      with m "1.prems" \<open>m < 10\<close> True show ?thesis using digit_char_inj by simp
    next
      case False
      then have "str_nat n = str_nat (n div 10) @ [digit_char (n mod 10)]"
        by (subst str_nat.simps) simp
      with m "1.prems" have "str_nat (n div 10) = []" by simp
      then show ?thesis using str_nat_nonempty by blast
    qed
  next
    case False
    then have m: "str_nat m = str_nat (m div 10) @ [digit_char (m mod 10)]"
      by (subst str_nat.simps) simp
    show ?thesis
    proof (cases "n < 10")
      case True
      then have "str_nat n = [digit_char n]" by (subst str_nat.simps) simp
      with m "1.prems" have "str_nat (m div 10) = []" by simp
      then show ?thesis using str_nat_nonempty by blast
    next
      case nf: False
      then have "str_nat n = str_nat (n div 10) @ [digit_char (n mod 10)]"
        by (subst str_nat.simps) simp
      with m "1.prems" have e: "str_nat (m div 10) = str_nat (n div 10)"
        and d: "digit_char (m mod 10) = digit_char (n mod 10)" by simp_all
      from "1.IH"[OF False e] have "m div 10 = n div 10" .
      moreover from d have "m mod 10 = n mod 10" by (intro digit_char_inj) simp_all
      ultimately show ?thesis by (metis div_mult_mod_eq)
    qed
  qed
qed

lemma page_path_inj: "page_path d stem j = page_path d stem k \<Longrightarrow> j = k"
  by (auto simp: page_path_def str_int_def dest: str_nat_inj)

lemma page_path_append: "page_path d stem k = d @ [stem @ ''_p'' @ str_int (int k) @ ''.pdf'']"
  by (simp add: page_path_def)

lemma split_pages_errors:
  "snd (split_pages stem d overwrite ps fs) \<in> {None, Some FileExistsError, Some OSError}"
proof (induction ps arbitrary: fs)
  case Nil
  then show ?case by simp
next
  case (Cons a ps)
  obtain k x where a: "a = (k, x)" by (cases a)
  obtain fs' oe where w: "write_pdf [x] (page_path d stem k) overwrite fs = (fs', oe)"
    by (cases "write_pdf [x] (page_path d stem k) overwrite fs")
  have "oe \<in> {None, Some FileExistsError, Some OSError}"
  proof (cases "path_exists fs (page_path d stem k) \<and> \<not> overwrite")
    case True
    with w show ?thesis by (simp add: write_pdf_def)
  next
    case False
    show ?thesis
    proof (cases "nearest_is_dir fs (butlast (page_path d stem k)) \<and> \<not> is_dir fs (page_path d stem k)")
      case True
      with False w write_pdf_written[of fs "page_path d stem k" overwrite "[x]"]
      show ?thesis by auto
    next
      case False
      with \<open>\<not> (path_exists fs (page_path d stem k) \<and> \<not> overwrite)\<close> w
        write_pdf_os_failure[of fs "page_path d stem k" overwrite "[x]"]
      show ?thesis by auto
    qed
  qed
  with a w Cons.IH[of fs'] show ?case by (cases oe) auto
qed

lemma split_pages_ok:
  assumes "is_dir fs d"
    and "\<forall>j < length pages. \<not> is_dir fs (page_path d stem (k + j))
           \<and> (overwrite \<or> \<not> path_exists fs (page_path d stem (k + j)))"
  shows "\<exists>fs'. split_pages stem d overwrite (enumerate k pages) fs = (fs', None)
           \<and> (\<forall>j < length pages. fs' (page_path d stem (k + j)) = Some (File (PdfDoc [pages ! j])))
           \<and> (\<forall>q. (\<forall>j < length pages. q \<noteq> page_path d stem (k + j)) \<longrightarrow> fs' q = fs q)"
  using assms
proof (induction pages arbitrary: k fs)
  case Nil
  then show ?case by simp
next
  case (Cons x pages)
  let ?p = "page_path d stem k"
  let ?fs1 = "fs(?p \<mapsto> File (PdfDoc [x]))"
  from Cons.prems(2) have h0: "\<not> is_dir fs ?p" "overwrite \<or> \<not> path_exists fs ?p"
    by force+
  have w: "write_pdf [x] ?p overwrite fs = (?fs1, None)"
    unfolding page_path_append
    using write_pdf_in_dir[OF Cons.prems(1), of "[x]" _ overwrite] h0
    by (auto simp: page_path_append)
  have ne: "page_path d stem (Suc k + j) \<noteq> ?p" for j
    using page_path_inj[of d stem "Suc k + j" k] by auto
  have d1: "is_dir ?fs1 d"
    using Cons.prems(1) by (auto simp: is_dir_def page_path_append)
  have h1: "\<forall>j < length pages. \<not> is_dir ?fs1 (page_path d stem (Suc k + j))
           \<and> (overwrite \<or> \<not> path_exists ?fs1 (page_path d stem (Suc k + j)))"
  proof (intro allI impI)
    fix j assume "j < length pages"
    then have "Suc j < length (x # pages)" by simp
    with Cons.prems(2) have "\<not> is_dir fs (page_path d stem (k + Suc j))
        \<and> (overwrite \<or> \<not> path_exists fs (page_path d stem (k + Suc j)))" by blast
    then show "\<not> is_dir ?fs1 (page_path d stem (Suc k + j))
        \<and> (overwrite \<or> \<not> path_exists ?fs1 (page_path d stem (Suc k + j)))"
      using ne[of j] by (auto simp: is_dir_def path_exists_def)
  qed
  from Cons.IH[OF d1 h1] obtain fs' where
    r: "split_pages stem d overwrite (enumerate (Suc k) pages) ?fs1 = (fs', None)"
    and a: "\<forall>j < length pages. fs' (page_path d stem (Suc k + j)) = Some (File (PdfDoc [pages ! j]))"
    and b: "\<forall>q. (\<forall>j < length pages. q \<noteq> page_path d stem (Suc k + j)) \<longrightarrow> fs' q = ?fs1 q"
    by blast
  have 1: "split_pages stem d overwrite (enumerate k (x # pages)) fs = (fs', None)"
    using w r by simp
  have 2: "fs' (page_path d stem (k + j)) = Some (File (PdfDoc [(x # pages) ! j]))"
    if "j < length (x # pages)" for j
  proof (cases j)
    case 0
    have "fs' ?p = ?fs1 ?p" using b ne by metis
    with 0 show ?thesis by simp
  next
    case (Suc i)
    with that a show ?thesis by simp
  qed
  have 3: "fs' q = fs q" if q: "\<forall>j < length (x # pages). q \<noteq> page_path d stem (k + j)" for q
  proof -
    from q have "q \<noteq> ?p" by force
    moreover have "\<forall>j < length pages. q \<noteq> page_path d stem (Suc k + j)"
    proof (intro allI impI)
      fix j assume "j < length pages"
      then have "Suc j < length (x # pages)" by simp
      with q have "q \<noteq> page_path d stem (k + Suc j)" by blast
      then show "q \<noteq> page_path d stem (Suc k + j)" by simp
    qed
    ultimately show ?thesis using b by simp
  qed
  from 1 2 3 show ?case by blast
qed

lemma mkdir_parents_keeps_child:
  assumes "mkdir_parents fs d = Inr fs0"
  shows "fs0 (d @ [n]) = fs (d @ [n])"
proof -
  have "\<not> prefix (d @ [n]) d" by (auto dest: prefix_length_le)
  then show ?thesis using mkdir_parents_result[OF assms] by metis
qed

lemma PdfReader_errors:
  "PdfReader fs p = Inl e \<Longrightarrow> e \<in> {FileNotFoundError, OSError, PdfReadError}"
  by (auto simp: PdfReader_def split: if_splits option.splits node.splits content.splits)

lemma split_pdf_by_page_errors:
  "snd (split_pdf src dest None overwrite fs)
     \<in> {None, Some FileExistsError, Some OSError, Some FileNotFoundError, Some PdfReadError}"
proof (cases "PdfReader fs src")
  case (Inl e)
  then show ?thesis using PdfReader_errors[OF Inl] by (auto simp: split_pdf_def)
next
  case (Inr reader)
  show ?thesis
  proof (cases "mkdir_parents fs dest")
    case (Inl e)
    with Inr mkdir_parents_error[OF Inl] show ?thesis by (simp add: split_pdf_def)
  next
    case r: (Inr fs0)
    with Inr split_pages_errors[of "stem_of (path_name src)" dest overwrite "enumerate 1 reader" fs0]
    show ?thesis by (auto simp: split_pdf_def)
  qed
qed

text \<open>
  Claim C10, as the code has it: extraction by pages never raises \<open>IndexError\<close>,
  whatever the source and the file system. When the source is a document of \<open>N\<close>
  pages, the output directory can be made, and no output path is refused (none is a
  directory, and none exists unless \<open>overwrite\<close> is on), the run succeeds and writes
  \<open>N\<close> documents at \<open>N\<close> distinct paths, the one for page index \<open>k\<close> holding
  exactly that page, and changes nothing else.
\<close>

theorem split_pdf_by_page:
  "snd (split_pdf src dest None overwrite fs) \<noteq> Some (IndexError n)
   \<and> (PdfReader fs src = Inr pages \<and> nearest_is_dir fs dest
        \<and> (\<forall>k < length pages.
              \<not> is_dir fs (page_path dest (stem_of (path_name src)) (Suc k))
              \<and> (overwrite \<or> \<not> path_exists fs (page_path dest (stem_of (path_name src)) (Suc k))))
      \<longrightarrow> (\<exists>fs0 fs'. mkdir_parents fs dest = Inr fs0
             \<and> split_pdf src dest None overwrite fs = (fs', None)
             \<and> (\<forall>k < length pages.
                   fs' (page_path dest (stem_of (path_name src)) (Suc k))
                     = Some (File (PdfDoc [pages ! k])))
             \<and> (\<forall>q. (\<forall>k < length pages. q \<noteq> page_path dest (stem_of (path_name src)) (Suc k))
                     \<longrightarrow> fs' q = fs0 q)
             \<and> distinct (map (\<lambda>k. page_path dest (stem_of (path_name src)) (Suc k))
                            [0..<length pages])))"
proof (intro conjI impI)
  show "snd (split_pdf src dest None overwrite fs) \<noteq> Some (IndexError n)"
    using split_pdf_by_page_errors[of src dest overwrite fs] by auto
next
  let ?stem = "stem_of (path_name src)"
  assume a: "PdfReader fs src = Inr pages \<and> nearest_is_dir fs dest
        \<and> (\<forall>k < length pages.
              \<not> is_dir fs (page_path dest ?stem (Suc k))
              \<and> (overwrite \<or> \<not> path_exists fs (page_path dest ?stem (Suc k))))"
  then obtain fs0 where m: "mkdir_parents fs dest = Inr fs0"
    using mkdir_parents_ok_iff[of fs dest] by (cases "mkdir_parents fs dest") auto
  have d: "is_dir fs0 dest" using mkdir_parents_result[OF m] by blast
  have same: "fs0 (page_path dest ?stem k) = fs (page_path dest ?stem k)" for k
    unfolding page_path_append by (rule mkdir_parents_keeps_child[OF m])
  have h: "\<forall>j < length pages. \<not> is_dir fs0 (page_path dest ?stem (1 + j))
           \<and> (overwrite \<or> \<not> path_exists fs0 (page_path dest ?stem (1 + j)))"
    using a same by (auto simp: is_dir_def path_exists_def)
  from split_pages_ok[OF d h] obtain fs' where
    r: "split_pages ?stem dest overwrite (enumerate 1 pages) fs0 = (fs', None)"
    and w: "\<forall>j < length pages. fs' (page_path dest ?stem (1 + j)) = Some (File (PdfDoc [pages ! j]))"
    and o: "\<forall>q. (\<forall>j < length pages. q \<noteq> page_path dest ?stem (1 + j)) \<longrightarrow> fs' q = fs0 q"
    by blast
  have 1: "split_pdf src dest None overwrite fs = (fs', None)"
    using a m r by (simp add: split_pdf_def)
  have 2: "distinct (map (\<lambda>k. page_path dest ?stem (Suc k)) [0..<length pages])"
    by (auto simp: distinct_map inj_on_def dest: page_path_inj)
  from m 1 2 w o show "\<exists>fs0 fs'. mkdir_parents fs dest = Inr fs0
             \<and> split_pdf src dest None overwrite fs = (fs', None)
             \<and> (\<forall>k < length pages.
                   fs' (page_path dest ?stem (Suc k)) = Some (File (PdfDoc [pages ! k])))
             \<and> (\<forall>q. (\<forall>k < length pages. q \<noteq> page_path dest ?stem (Suc k)) \<longrightarrow> fs' q = fs0 q)
             \<and> distinct (map (\<lambda>k. page_path dest ?stem (Suc k)) [0..<length pages])"
    by (intro exI[of _ fs0] exI[of _ fs']) simp
qed

lemma str_int_1: "str_int 1 = ''1''" by code_simp

text \<open>
  Claim C10 as stated fails: the guard of \<open>write_pdf\<close> can stop the run. With
  \<open>doc_p1.pdf\<close> in the output directory and \<open>overwrite\<close> off, the run on the
  document of ten pages raises \<open>FileExistsError\<close> at the first page and leaves the
  file system as it was: none of the ten documents is produced.
\<close>

theorem by_page_stopped_by_collision:
  "split_pdf [''doc.pdf''] [''out''] None False collision_fs = (collision_fs, Some FileExistsError)
   \<and> collision_fs [''out'', ''doc_p1.pdf''] = Some (File (PdfDoc [99]))
   \<and> collision_fs [''out'', ''doc_p2.pdf''] = None"
proof -
  have r: "PdfReader collision_fs [''doc.pdf''] = Inr [11, 12, 13, 14, 15, 16, 17, 18, 19, 20]"
    by (simp add: PdfReader_def collision_fs_def ten_page_fs_def)
  have m: "mkdir_parents collision_fs [''out''] = Inr collision_fs"
    by (simp add: mkdir_parents.simps collision_fs_def)
  have p: "page_path [''out''] ''doc'' (Suc 0) = [''out'', ''doc_p1.pdf'']"
    by (simp add: page_path_def str_int_1)
  have e: "path_exists collision_fs [''out'', ''doc_p1.pdf'']"
    by (simp add: path_exists_def collision_fs_def)
  have "split_pdf [''doc.pdf''] [''out''] None False collision_fs = (collision_fs, Some FileExistsError)"
    by (simp add: split_pdf_def r m stem_doc enumerate_simps p write_pdf_refused[OF e])
  then show ?thesis by (simp add: collision_fs_def ten_page_fs_def)
qed

theorem split_pdf_by_page_witness:
  "PdfReader ten_page_fs [''doc.pdf''] = Inr [11, 12, 13, 14, 15, 16, 17, 18, 19, 20]
   \<and> nearest_is_dir ten_page_fs [''out'']
   \<and> snd (split_pdf [''doc.pdf''] [''out''] None False ten_page_fs) = None
   \<and> fst (split_pdf [''doc.pdf''] [''out''] None False ten_page_fs) [''out'', ''doc_p3.pdf'']
       = Some (File (PdfDoc [13]))"
proof -
  let ?pages = "[11, 12, 13, 14, 15, 16, 17, 18, 19, 20 :: nat]"
  have n: "nearest_is_dir ten_page_fs [''out'']"
    by (simp add: nearest_is_dir.simps ten_page_fs_def)
  have f: "\<forall>k < length ?pages.
      \<not> is_dir ten_page_fs (page_path [''out''] (stem_of (path_name [''doc.pdf''])) (Suc k))
      \<and> (False \<or> \<not> path_exists ten_page_fs (page_path [''out''] (stem_of (path_name [''doc.pdf''])) (Suc k)))"
    by (simp add: page_path_append is_dir_def path_exists_def ten_page_fs_def)
  have p: "page_path [''out''] (stem_of (path_name [''doc.pdf''])) (Suc 2) = [''out'', ''doc_p3.pdf'']"
    unfolding stem_doc by code_simp
  from split_pdf_by_page[of "[''doc.pdf'']" "[''out'']" False ten_page_fs _ ?pages]
    ten_page_reader n f
  obtain fs' where r: "split_pdf [''doc.pdf''] [''out''] None False ten_page_fs = (fs', None)"
    and w: "\<forall>k < length ?pages.
        fs' (page_path [''out''] (stem_of (path_name [''doc.pdf''])) (Suc k)) = Some (File (PdfDoc [?pages ! k]))"
    by blast
  have "(2 :: nat) < length ?pages" by simp
  with w have "fs' (page_path [''out''] (stem_of (path_name [''doc.pdf''])) (Suc 2))
      = Some (File (PdfDoc [?pages ! 2]))" by blast
  then have "fs' [''out'', ''doc_p3.pdf''] = Some (File (PdfDoc [13]))"
    unfolding p by simp
  with r ten_page_reader n show ?thesis by simp
qed

section \<open>Proofs: merging a directory\<close>











lemma merge_directory_no_files:
  "sorted_files fs listing input_dir = [] \<Longrightarrow>
   merge_directory pil listing input_dir output_pdf fs = (fs, Some SystemExit)"
  by (simp add: merge_directory_def)

lemma sorted_files_empty_listing: "sorted_files fs [] input_dir = []"
  by (simp add: sorted_files_def)

lemma only_text_files:
  "sorted_files only_text_fs [''notes.txt''] [''in''] = [[''in'', ''notes.txt'']]"
  by code_simp

lemma only_text_loop:
  "merge_loop example_pil only_text_fs [[''in'', ''notes.txt'']] [] = Inr []"
  by code_simp

text \<open>
  Claim C1 at a directory whose only file has an unsupported kind: the check
  \<open>if not files\<close> counts every file, so the run raises nothing and writes a document
  with no pages to the output path. (For a directory with no file at all,
  \<open>merge_directory_no_files\<close> gives the \<open>SystemExit\<close> and the unchanged file
  system.)
\<close>

theorem merge_only_unsupported_writes_empty:
  "kind_of [''in'', ''notes.txt''] = Unsupported
   \<and> merge_directory example_pil [''notes.txt''] [''in''] [''merged.pdf''] only_text_fs
       = (only_text_fs([''merged.pdf''] \<mapsto> File (PdfDoc [])), None)"
proof -
  have k: "kind_of [''in'', ''notes.txt''] = Unsupported" by code_simp
  have o: "open_wb only_text_fs [''merged.pdf''] (PdfDoc [])
             = Inr (only_text_fs([''merged.pdf''] \<mapsto> File (PdfDoc [])))"
    by (simp add: open_wb_def is_dir_def only_text_fs_def)
  have "merge_directory example_pil [''notes.txt''] [''in''] [''merged.pdf''] only_text_fs
       = (only_text_fs([''merged.pdf''] \<mapsto> File (PdfDoc [])), None)"
    unfolding merge_directory_def Let_def only_text_files only_text_loop by (simp add: o)
  with k show ?thesis by simp
qed

section \<open>Proofs: compression\<close>

lemma cleanup_no_file:
  "cleanup fs output_path e = (fs', r) \<Longrightarrow>
     isl r \<and> (\<forall>c. fs' output_path \<noteq> Some (File c))
     \<and> (fs output_path \<noteq> Some Dir \<longrightarrow> fs' = fs(output_path := None) \<and> r = Inl e)"
  by (auto simp: cleanup_def os_exists_def os_remove_def
           split: if_splits option.splits node.splits)

lemma after_run_failure:
  assumes "rc \<noteq> 0 \<or> fs_after output_path = None"
  shows "after_run getsize (Exited rc) fs_after input_path output_path
           = Inl (if rc \<noteq> 0 then CalledProcessError rc else FileNotFoundError)"
  using assms by (auto simp: after_run_def)

text \<open>
  Claim C9: when the checks of the arguments pass and the subprocess exits with a
  status other than zero, or exits and leaves nothing at the output path, the invocation
  raises, and afterwards no file is at the output path. Unless a directory is in the
  way there, the error is the \<open>CalledProcessError\<close> of the process (or
  \<open>FileNotFoundError\<close> for the missing output) and the file system is the one the
  process left, with the output path removed.
\<close>

theorem compress_pdf_failure_cleanup:
  assumes "os_isfile fs (abspath input_arg)"
    and "output_path = abspath (case output_arg of
                                  None \<Rightarrow> default_output (abspath input_arg)
                                | Some p \<Rightarrow> p)"
    and "\<not> os_exists fs output_path \<or> force"
    and "compression_level \<in> set COMPRESSION_LEVELS"
    and "run (gs_command compression_level output_path (abspath input_arg)) fs = (Exited rc, fs_after)"
    and "rc \<noteq> 0 \<or> fs_after output_path = None"
  shows "\<exists>fs' e. compress_pdf abspath getsize run input_arg output_arg compression_level force fs
                    = (fs', Inl e)
           \<and> (\<forall>c. fs' output_path \<noteq> Some (File c))
           \<and> (fs_after output_path \<noteq> Some Dir \<longrightarrow>
                fs' = fs_after(output_path := None)
                \<and> e = (if rc \<noteq> 0 then CalledProcessError rc else FileNotFoundError))"
proof -
  let ?e = "if rc \<noteq> 0 then CalledProcessError rc else FileNotFoundError"
  have c: "compress_pdf abspath getsize run input_arg output_arg compression_level force fs
             = cleanup fs_after output_path ?e"
    using assms(1,3,4,5,6) after_run_failure[of rc fs_after output_path getsize "abspath input_arg"]
    unfolding compress_pdf_def Let_def assms(2)[symmetric] by auto
  obtain fs' r where r: "cleanup fs_after output_path ?e = (fs', r)"
    by (cases "cleanup fs_after output_path ?e")
  from cleanup_no_file[OF r] obtain e where "r = Inl e" by (cases r) auto
  with c r cleanup_no_file[OF r] show ?thesis by auto
qed

theorem compress_pdf_failure_cleanup_witness:
  "os_isfile compress_example_fs ''/in.pdf''
   \<and> \<not> os_exists compress_example_fs ''/out.pdf''
   \<and> ''ebook'' \<in> set COMPRESSION_LEVELS
   \<and> failing_gs (gs_command ''ebook'' ''/out.pdf'' ''/in.pdf'') compress_example_fs
        = (Exited 1, compress_example_fs(''/out.pdf'' \<mapsto> File 3))
   \<and> snd (compress_pdf (\<lambda>p. p) example_getsize failing_gs ''/in.pdf'' (Some ''/out.pdf'') ''ebook''
             False compress_example_fs) = Inl (CalledProcessError 1)
   \<and> fst (compress_pdf (\<lambda>p. p) example_getsize failing_gs ''/in.pdf'' (Some ''/out.pdf'') ''ebook''
             False compress_example_fs) ''/out.pdf'' = None"
proof -
  have 1: "os_isfile compress_example_fs ((\<lambda>p. p) ''/in.pdf'')"
    by (simp add: os_isfile_def compress_example_fs_def)
  have 2: "''/out.pdf'' = (\<lambda>p. p) (case Some ''/out.pdf'' of
              None \<Rightarrow> default_output ((\<lambda>p. p) ''/in.pdf'') | Some p \<Rightarrow> p)" by simp
  have 3: "\<not> os_exists compress_example_fs ''/out.pdf''"
    by (simp add: os_exists_def compress_example_fs_def)
  then have f: "\<not> os_exists compress_example_fs ''/out.pdf'' \<or> False" by simp
  have 4: "''ebook'' \<in> set COMPRESSION_LEVELS" by (simp add: COMPRESSION_LEVELS_def)
  have 5: "failing_gs (gs_command ''ebook'' ''/out.pdf'' ((\<lambda>p. p) ''/in.pdf'')) compress_example_fs
        = (Exited 1, compress_example_fs(''/out.pdf'' \<mapsto> File 3))"
    by (simp add: failing_gs_def)
  have 6: "(1 :: int) \<noteq> 0 \<or> (compress_example_fs(''/out.pdf'' \<mapsto> File 3)) ''/out.pdf'' = None"
    by simp
  from compress_pdf_failure_cleanup[where abspath = "\<lambda>p. p" and fs = compress_example_fs
      and input_arg = "''/in.pdf''" and output_arg = "Some ''/out.pdf''"
      and output_path = "''/out.pdf''" and force = False and compression_level = "''ebook''"
      and run = failing_gs and rc = 1 and fs_after = "compress_example_fs(''/out.pdf'' \<mapsto> File 3)"
      and getsize = example_getsize] 1 2 f 4 5 6
  have "snd (compress_pdf (\<lambda>p. p) example_getsize failing_gs ''/in.pdf'' (Some ''/out.pdf'') ''ebook''
             False compress_example_fs) = Inl (CalledProcessError 1)
   \<and> fst (compress_pdf (\<lambda>p. p) example_getsize failing_gs ''/in.pdf'' (Some ''/out.pdf'') ''ebook''
             False compress_example_fs) ''/out.pdf'' = None"
    by auto
  with 1 3 4 5 show ?thesis by simp
qed

end
